theory Spec2Isabelle
  imports Main "HOL-Library.Product_Lexorder"
begin

unbundle bit_operations_syntax

section \<open>Collaborators of the board: coordinates, players, the Zobrist table\<close>

text \<open>
  Modelled from the spec: the module \<^verbatim>\<open>dlgo.gotypes\<close> (the coordinate type \<^verbatim>\<open>Point\<close>
  with \<^verbatim>\<open>neighbors()\<close>, and \<^verbatim>\<open>Player\<close> with \<^verbatim>\<open>other\<close>) is imported by
  \<^verbatim>\<open>goboard.py\<close> but its file is not part of the sources. The spec describes a coordinate
  as an integer row/column pair whose \<^verbatim>\<open>neighbors()\<close> yields the four orthogonally
  adjacent coordinates without bounds filtering, and a player as one of two values with
  an "other" mapping that swaps black and white.
\<close>

type_synonym point = "int \<times> int"

definition row :: "point \<Rightarrow> int" where
  "row p = fst p"

definition col :: "point \<Rightarrow> int" where
  "col p = snd p"

definition neighbors :: "point \<Rightarrow> point list" where
  "neighbors p =
     [(row p - 1, col p), (row p + 1, col p), (row p, col p - 1), (row p, col p + 1)]"

datatype player = black | white

fun other :: "player \<Rightarrow> player" where
  "other black = white"
| "other white = black"

text \<open>
  Modelled from the spec: the module \<^verbatim>\<open>dlgo.zobrist\<close> is imported by \<^verbatim>\<open>goboard.py\<close> but
  its file is not part of the sources. The spec describes it as an immutable lookup from
  (coordinate, color) to a wide integer plus a fixed empty-position constant. The table
  is a parameter of every operation that reads it; Python's integers are unbounded, so
  the codes are of type \<^typ>\<open>int\<close> and \<^verbatim>\<open>^\<close> is \<^const>\<open>xor\<close> on \<^typ>\<open>int\<close>.
\<close>

record zobrist =
  HASH_CODE :: "point \<times> player \<Rightarrow> int"
  EMPTY_BOARD :: int

text \<open>The two faults the module can raise: a failed \<^verbatim>\<open>assert\<close> and a failed
  attribute lookup.\<close>

datatype error = AssertionError | AttributeError

section \<open>Move\<close>

record move =
  point :: "point option"
  is_play :: bool
  is_pass :: bool
  is_resign :: bool

text \<open>\<^verbatim>\<open>Move.__init__\<close>: the assertion is the exclusive-or of three booleans;
  on booleans \<^verbatim>\<open>a ^ b\<close> is \<open>a \<noteq> b\<close>.\<close>

definition Move :: "point option \<Rightarrow> bool \<Rightarrow> bool \<Rightarrow> error + move" where
  "Move pt pass resign =
     (if ((pt \<noteq> None) \<noteq> pass) \<noteq> resign
      then Inr \<lparr>point = pt, is_play = (pt \<noteq> None), is_pass = pass, is_resign = resign\<rparr>
      else Inl AssertionError)"

definition play :: "point \<Rightarrow> error + move" where
  "play pt = Move (Some pt) False False"

definition pass_turn :: "error + move" where
  "pass_turn = Move None True False"

definition resign :: "error + move" where
  "resign = Move None False True"

section \<open>GoString\<close>

text \<open>The two \<^verbatim>\<open>frozenset\<close> fields are sets of coordinates; \<^verbatim>\<open>__eq__\<close> compares the
  three fields, which is equality of the record.\<close>

record go_string =
  color :: player
  stones :: "point set"
  liberties :: "point set"

definition GoString :: "player \<Rightarrow> point set \<Rightarrow> point set \<Rightarrow> go_string" where
  "GoString c ss ls = \<lparr>color = c, stones = ss, liberties = ls\<rparr>"

definition without_liberty :: "go_string \<Rightarrow> point \<Rightarrow> go_string" where
  "without_liberty s pt = GoString (color s) (stones s) (liberties s - {pt})"

text \<open>\<^verbatim>\<open>with_liberty\<close> reads \<^verbatim>\<open>self.liberities\<close>. \<^verbatim>\<open>GoString.__init__\<close> sets only
  \<^verbatim>\<open>color\<close>, \<^verbatim>\<open>stones\<close> and \<^verbatim>\<open>liberties\<close>, and the class defines no attribute of that
  name, so the lookup raises \<^verbatim>\<open>AttributeError\<close> before anything else happens.\<close>

definition with_liberty :: "go_string \<Rightarrow> point \<Rightarrow> error + go_string" where
  "with_liberty s pt = Inl AttributeError"

definition merged_with :: "go_string \<Rightarrow> go_string \<Rightarrow> error + go_string" where
  "merged_with s go_string =
     (if color go_string = color s
      then (let combined_stones = stones s \<union> stones go_string
            in Inr (GoString (color s) combined_stones
                     ((liberties s \<union> liberties go_string) - combined_stones)))
      else Inl AssertionError)"

definition num_liberties :: "go_string \<Rightarrow> nat" where
  "num_liberties s = card (liberties s)"

section \<open>Board\<close>

text \<open>The dictionary \<^verbatim>\<open>_grid\<close> is a map; \<^verbatim>\<open>_grid.get(p)\<close> is \<^verbatim>\<open>None\<close> both for a key
  that is absent and for a key that \<^verbatim>\<open>_remove_string\<close> has set to \<^verbatim>\<open>None\<close>, and no
  operation tells the two apart, so both are \<open>None\<close> of the map.\<close>

record board =
  num_rows :: int
  num_cols :: int
  grid :: "point \<rightharpoonup> go_string"
  hash :: int

definition Board :: "zobrist \<Rightarrow> int \<Rightarrow> int \<Rightarrow> board" where
  "Board z r c = \<lparr>num_rows = r, num_cols = c, grid = Map.empty, hash = EMPTY_BOARD z\<rparr>"

definition is_on_grid :: "board \<Rightarrow> point \<Rightarrow> bool" where
  "is_on_grid b p \<longleftrightarrow> 1 \<le> row p \<and> row p \<le> num_rows b \<and> 1 \<le> col p \<and> col p \<le> num_cols b"

definition get :: "board \<Rightarrow> point \<Rightarrow> player option" where
  "get b p = (case grid b p of None \<Rightarrow> None | Some string \<Rightarrow> Some (color string))"

definition get_go_string :: "board \<Rightarrow> point \<Rightarrow> go_string option" where
  "get_go_string b p = (case grid b p of None \<Rightarrow> None | Some string \<Rightarrow> Some string)"

definition zobrist_hash :: "board \<Rightarrow> int" where
  "zobrist_hash b = hash b"

text \<open>\<^verbatim>\<open>_replace_string\<close> stores the same value under every coordinate of the string;
  the order of the writes cannot be observed.\<close>

definition replace_string :: "go_string \<Rightarrow> board \<Rightarrow> board" where
  "replace_string new_string b =
     b\<lparr>grid := (\<lambda>p. if p \<in> stones new_string then Some new_string else grid b p)\<rparr>"

text \<open>The inner loop of \<^verbatim>\<open>_remove_string\<close> over the neighbours of one captured stone.
  The test \<^verbatim>\<open>neighbor_string is not string\<close> compares object identity; strings are
  values here, and two strings that differ as values are different objects, so a fault
  of this model is a fault of the program.\<close>

fun restore_liberties :: "go_string \<Rightarrow> point \<Rightarrow> point list \<Rightarrow> board \<Rightarrow> error + board" where
  "restore_liberties string pt [] b = Inr b"
| "restore_liberties string pt (neighbor # ns) b =
     (case grid b neighbor of
        None \<Rightarrow> restore_liberties string pt ns b
      | Some neighbor_string \<Rightarrow>
          if neighbor_string \<noteq> string
          then (case with_liberty neighbor_string pt of
                  Inl e \<Rightarrow> Inl e
                | Inr s' \<Rightarrow> restore_liberties string pt ns (replace_string s' b))
          else restore_liberties string pt ns b)"

text \<open>The outer loop of \<^verbatim>\<open>_remove_string\<close> over the stones of the captured string.\<close>

fun remove_points :: "zobrist \<Rightarrow> go_string \<Rightarrow> point list \<Rightarrow> board \<Rightarrow> error + board" where
  "remove_points z string [] b = Inr b"
| "remove_points z string (pt # pts) b =
     (case restore_liberties string pt (neighbors pt) b of
        Inl e \<Rightarrow> Inl e
      | Inr b1 \<Rightarrow>
          remove_points z string pts
            (b1\<lparr>grid := (grid b1)(pt := None),
                hash := hash b1 XOR HASH_CODE z (pt, color string)\<rparr>))"

text \<open>A \<^verbatim>\<open>frozenset\<close> is iterated in an order Python does not specify; the model visits
  the stones in increasing order. The loop \<open>remove_points\<close> takes the order as a list, and
  the lemma \<open>remove_points_faults\<close> below holds for every order.\<close>

definition remove_string :: "zobrist \<Rightarrow> go_string \<Rightarrow> board \<Rightarrow> error + board" where
  "remove_string z string b = remove_points z string (sorted_list_of_set (stones string)) b"

text \<open>The first loop of \<^verbatim>\<open>place_stone\<close>: the state is the triple of the lists
  \<^verbatim>\<open>adjacent_same_color\<close>, \<^verbatim>\<open>adjacent_opposite_color\<close> and \<^verbatim>\<open>liberties\<close>.\<close>

fun scan_neighbors ::
  "board \<Rightarrow> player \<Rightarrow> point list \<Rightarrow> go_string list \<times> go_string list \<times> point list
     \<Rightarrow> go_string list \<times> go_string list \<times> point list" where
  "scan_neighbors b pl [] acc = acc"
| "scan_neighbors b pl (neighbor # ns) (same, opp, libs) =
     (if \<not> is_on_grid b neighbor then scan_neighbors b pl ns (same, opp, libs)
      else (case grid b neighbor of
              None \<Rightarrow> scan_neighbors b pl ns (same, opp, libs @ [neighbor])
            | Some neighbor_string \<Rightarrow>
                if color neighbor_string = pl
                then (if neighbor_string \<notin> set same
                      then scan_neighbors b pl ns (same @ [neighbor_string], opp, libs)
                      else scan_neighbors b pl ns (same, opp, libs))
                else (if neighbor_string \<notin> set opp
                      then scan_neighbors b pl ns (same, opp @ [neighbor_string], libs)
                      else scan_neighbors b pl ns (same, opp, libs))))"

text \<open>The second loop: merging the adjacent strings of the same colour.\<close>

fun merge_all :: "go_string \<Rightarrow> go_string list \<Rightarrow> error + go_string" where
  "merge_all new_string [] = Inr new_string"
| "merge_all new_string (same_color_string # ss) =
     (case merged_with new_string same_color_string of
        Inl e \<Rightarrow> Inl e
      | Inr m \<Rightarrow> merge_all m ss)"

text \<open>The last loop: reducing the liberties of the adjacent strings of the other colour.\<close>

fun reduce_opposite :: "zobrist \<Rightarrow> point \<Rightarrow> go_string list \<Rightarrow> board \<Rightarrow> error + board" where
  "reduce_opposite z pt [] b = Inr b"
| "reduce_opposite z pt (other_color_string # ss) b =
     (let replacement = without_liberty other_color_string pt
      in if num_liberties replacement \<noteq> 0
         then reduce_opposite z pt ss (replace_string (without_liberty other_color_string pt) b)
         else (case remove_string z other_color_string b of
                 Inl e \<Rightarrow> Inl e
               | Inr b' \<Rightarrow> reduce_opposite z pt ss b'))"

definition place_stone :: "zobrist \<Rightarrow> board \<Rightarrow> player \<Rightarrow> point \<Rightarrow> error + board" where
  "place_stone z b pl pt =
     (if \<not> is_on_grid b pt then Inl AssertionError
      else if grid b pt \<noteq> None then Inl AssertionError
      else (case scan_neighbors b pl (neighbors pt) ([], [], []) of
              (adjacent_same_color, adjacent_opposite_color, libs) \<Rightarrow>
                (case merge_all (GoString pl {pt} (set libs)) adjacent_same_color of
                   Inl e \<Rightarrow> Inl e
                 | Inr new_string \<Rightarrow>
                     reduce_opposite z pt adjacent_opposite_color
                       ((replace_string new_string b)
                          \<lparr>hash := hash b XOR HASH_CODE z (pt, pl)\<rparr>))))"

text \<open>A sequence of placements on one board, stopping at the first fault.\<close>

fun place_stones :: "zobrist \<Rightarrow> board \<Rightarrow> (player \<times> point) list \<Rightarrow> error + board" where
  "place_stones z b [] = Inr b"
| "place_stones z b ((pl, pt) # ms) =
     (case place_stone z b pl pt of
        Inl e \<Rightarrow> Inl e
      | Inr b' \<Rightarrow> place_stones z b' ms)"

section \<open>GameState\<close>

text \<open>
  Boards are mutable objects that game states refer to, and \<^verbatim>\<open>apply_move\<close> decides
  between sharing the predecessor's board and copying it. The boards therefore live in a
  store, a list of boards addressed by position; a game state holds the address of its
  board. \<^verbatim>\<open>copy.deepcopy\<close> appends a copy to the store, and \<^verbatim>\<open>place_stone\<close> called on
  an address overwrites the board stored there.
\<close>

datatype game_state =
  State (board: nat) (next_player: player) (previous_state: "game_state option")
        (previous_states: "(player \<times> int) set") (last_move: "move option")

definition GameState ::
  "board list \<Rightarrow> nat \<Rightarrow> player \<Rightarrow> game_state option \<Rightarrow> move option \<Rightarrow> game_state" where
  "GameState h brd pl previous mv =
     State brd pl previous
       (case previous of
          None \<Rightarrow> {}
        | Some prev \<Rightarrow>
            previous_states prev \<union> {(next_player prev, zobrist_hash (h ! board prev))})
       mv"

text \<open>\<^verbatim>\<open>board.place_stone(player, move.point)\<close> on the board at address \<open>r\<close>. A move
  whose \<^verbatim>\<open>point\<close> is \<^verbatim>\<open>None\<close> makes \<^verbatim>\<open>is_on_grid\<close> read \<^verbatim>\<open>None.row\<close>.\<close>

definition place_stone_at ::
  "zobrist \<Rightarrow> board list \<Rightarrow> nat \<Rightarrow> player \<Rightarrow> point option \<Rightarrow> error + board list" where
  "place_stone_at z h r pl pto =
     (case pto of
        None \<Rightarrow> Inl AttributeError
      | Some pt \<Rightarrow>
          (case place_stone z (h ! r) pl pt of
             Inl e \<Rightarrow> Inl e
           | Inr b' \<Rightarrow> Inr (h[r := b'])))"

text \<open>When the placement faults, the copy is garbage that nothing refers to, and the
  store is returned as it was.\<close>

definition apply_move ::
  "zobrist \<Rightarrow> board list \<Rightarrow> game_state \<Rightarrow> move \<Rightarrow> board list \<times> (error + game_state)" where
  "apply_move z h s mv =
     (if is_play mv
      then (let next_board = length h;
                h1 = h @ [h ! board s]
            in case place_stone_at z h1 next_board (next_player s) (point mv) of
                 Inl e \<Rightarrow> (h, Inl e)
               | Inr h2 \<Rightarrow>
                   (h2, Inr (GameState h2 next_board (other (next_player s)) (Some s) (Some mv))))
      else (h, Inr (GameState h (board s) (other (next_player s)) (Some s) (Some mv))))"

text \<open>\<^verbatim>\<open>new_game\<close> takes an integer or a pair of integers.\<close>

definition new_game :: "zobrist \<Rightarrow> board list \<Rightarrow> int + int \<times> int \<Rightarrow> board list \<times> game_state" where
  "new_game z h board_size =
     (let (r, c) = (case board_size of Inl n \<Rightarrow> (n, n) | Inr rc \<Rightarrow> rc)
      in (h @ [Board z r c], GameState (h @ [Board z r c]) (length h) black None None))"

text \<open>\<^verbatim>\<open>is_over\<close> reads \<^verbatim>\<open>self.previous_state.last_move\<close>, which faults when there is a
  last move but no previous state.\<close>

definition is_over :: "game_state \<Rightarrow> error + bool" where
  "is_over s =
     (case last_move s of
        None \<Rightarrow> Inr False
      | Some lm \<Rightarrow>
          if is_resign lm then Inr True
          else (case previous_state s of
                  None \<Rightarrow> Inl AttributeError
                | Some prev \<Rightarrow>
                    (case last_move prev of
                       None \<Rightarrow> Inr False
                     | Some second_last_move \<Rightarrow> Inr (is_pass lm \<and> is_pass second_last_move))))"

text \<open>The two predicates place the stone on a deep copy that stays local to the call:
  the copy is the value of the board, and the store is not changed.\<close>

definition is_move_self_capture ::
  "zobrist \<Rightarrow> board list \<Rightarrow> game_state \<Rightarrow> player \<Rightarrow> move \<Rightarrow> error + bool" where
  "is_move_self_capture z h s pl mv =
     (if \<not> is_play mv then Inr False
      else (case point mv of
              None \<Rightarrow> Inl AttributeError
            | Some pt \<Rightarrow>
                (case place_stone z (h ! board s) pl pt of
                   Inl e \<Rightarrow> Inl e
                 | Inr next_board \<Rightarrow>
                     (case get_go_string next_board pt of
                        None \<Rightarrow> Inl AttributeError
                      | Some new_string \<Rightarrow> Inr (num_liberties new_string = 0)))))"

definition does_move_violate_ko ::
  "zobrist \<Rightarrow> board list \<Rightarrow> game_state \<Rightarrow> player \<Rightarrow> move \<Rightarrow> error + bool" where
  "does_move_violate_ko z h s pl mv =
     (if \<not> is_play mv then Inr False
      else (case point mv of
              None \<Rightarrow> Inl AttributeError
            | Some pt \<Rightarrow>
                (case place_stone z (h ! board s) pl pt of
                   Inl e \<Rightarrow> Inl e
                 | Inr next_board \<Rightarrow>
                     Inr ((other pl, zobrist_hash next_board) \<in> previous_states s))))"

text \<open>\<^verbatim>\<open>board.get(None)\<close> is \<^verbatim>\<open>None\<close>: no key of the dictionary is \<^verbatim>\<open>None\<close>.
  The conjunction is evaluated left to right and stops at the first false conjunct.\<close>

definition is_valid_move :: "zobrist \<Rightarrow> board list \<Rightarrow> game_state \<Rightarrow> move \<Rightarrow> error + bool" where
  "is_valid_move z h s mv =
     (case is_over s of
        Inl e \<Rightarrow> Inl e
      | Inr True \<Rightarrow> Inr False
      | Inr False \<Rightarrow>
          if is_pass mv \<or> is_resign mv then Inr True
          else if (case point mv of None \<Rightarrow> None | Some pt \<Rightarrow> get (h ! board s) pt) \<noteq> None
          then Inr False
          else (case is_move_self_capture z h s (next_player s) mv of
                  Inl e \<Rightarrow> Inl e
                | Inr True \<Rightarrow> Inr False
                | Inr False \<Rightarrow>
                    (case does_move_violate_ko z h s (next_player s) mv of
                       Inl e \<Rightarrow> Inl e
                     | Inr ko \<Rightarrow> Inr (\<not> ko))))"

text \<open>A sequence of moves from a state, stopping at the first fault.\<close>

fun apply_moves ::
  "zobrist \<Rightarrow> board list \<Rightarrow> game_state \<Rightarrow> move list \<Rightarrow> board list \<times> (error + game_state)" where
  "apply_moves z h s [] = (h, Inr s)"
| "apply_moves z h s (mv # mvs) =
     (case apply_move z h s mv of
        (h', Inl e) \<Rightarrow> (h', Inl e)
      | (h', Inr s') \<Rightarrow> apply_moves z h' s' mvs)"

section \<open>Definitions used by the statements\<close>

text \<open>A concrete Zobrist table for the closed examples: distinct codes for distinct
  (coordinate, colour) pairs of a small board, and 0 for the empty board.\<close>

definition example_table :: zobrist where
  "example_table =
     \<lparr>HASH_CODE = (\<lambda>(p, pl). 2 * (100 * row p + col p) + (case pl of black \<Rightarrow> 0 | white \<Rightarrow> 1)),
      EMPTY_BOARD = 0\<rparr>"

text \<open>The moves the three factories build.\<close>

definition play_move :: "point \<Rightarrow> move" where
  "play_move pt = \<lparr>point = Some pt, is_play = True, is_pass = False, is_resign = False\<rparr>"

definition pass_move :: move where
  "pass_move = \<lparr>point = None, is_play = False, is_pass = True, is_resign = False\<rparr>"

definition resign_move :: move where
  "resign_move = \<lparr>point = None, is_play = False, is_pass = False, is_resign = True\<rparr>"

text \<open>The spec's wording of \<^verbatim>\<open>isOver\<close>: false at the root; true if the last move was a
  resignation; true if the last move and the move before it were both passes; false
  otherwise.\<close>

definition is_over_spec :: "game_state \<Rightarrow> bool" where
  "is_over_spec s =
     (case last_move s of
        None \<Rightarrow> False
      | Some lm \<Rightarrow>
          is_resign lm \<or>
          (is_pass lm \<and>
           (case previous_state s of
              None \<Rightarrow> False
            | Some prev \<Rightarrow> (case last_move prev of None \<Rightarrow> False | Some lm2 \<Rightarrow> is_pass lm2))))"

text \<open>A state that has a last move has a previous state: what \<^verbatim>\<open>new_game\<close> and
  \<^verbatim>\<open>apply_move\<close> build.\<close>

definition has_history :: "game_state \<Rightarrow> bool" where
  "has_history s \<longleftrightarrow> (last_move s \<noteq> None \<longrightarrow> previous_state s \<noteq> None)"

text \<open>The coordinates of the grid, row by row.\<close>

definition all_points :: "board \<Rightarrow> point list" where
  "all_points b = List.product [1..num_rows b] [1..num_cols b]"

text \<open>The spec's wording of the hash: the empty-board constant XORed with the code of
  every (coordinate, colour) pair that is occupied. The occupied pairs are read with
  \<^verbatim>\<open>get\<close>.\<close>

fun xor_codes :: "zobrist \<Rightarrow> (point \<Rightarrow> player option) \<Rightarrow> point list \<Rightarrow> int \<Rightarrow> int" where
  "xor_codes z g [] acc = acc"
| "xor_codes z g (p # ps) acc =
     xor_codes z g ps (case g p of None \<Rightarrow> acc | Some c \<Rightarrow> acc XOR HASH_CODE z (p, c))"

definition position_hash :: "zobrist \<Rightarrow> board \<Rightarrow> int" where
  "position_hash z b = xor_codes z (get b) (all_points b) (EMPTY_BOARD z)"

text \<open>The grid of a board built by placements: a string stored under a coordinate
  contains that coordinate, is finite, lies on the grid, and is stored under every one
  of its stones.\<close>

definition wf_board :: "board \<Rightarrow> bool" where
  "wf_board b \<longleftrightarrow>
     (\<forall>p s. grid b p = Some s \<longrightarrow>
        p \<in> stones s \<and> finite (stones s) \<and> is_on_grid b p \<and> (\<forall>q\<in>stones s. grid b q = Some s))"


definition suicide_board :: board where
  "suicide_board =
     projr (place_stones example_table (Board example_table 5 5)
              [(black, (2, 3)), (black, (4, 3)), (black, (3, 2)), (black, (3, 4)),
               (white, (1, 1))])"

text \<open>The single-stone ko: in \<open>ko_before\<close> the black stone at (3,2) has its last liberty
  at (3,3); \<open>ko_after\<close> is the position after white has played (3,3) and taken that stone.
  Both are built by placements that capture nothing. \<open>ko_state\<close> is the state with black
  to move on \<open>ko_after\<close> whose predecessor had white to move on \<open>ko_before\<close>.\<close>

definition ko_before :: board where
  "ko_before =
     projr (place_stones example_table (Board example_table 5 5)
              [(black, (3, 2)), (white, (2, 2)), (white, (4, 2)), (white, (3, 1)),
               (black, (2, 3)), (black, (4, 3)), (black, (3, 4))])"

definition ko_after :: board where
  "ko_after =
     projr (place_stones example_table (Board example_table 5 5)
              [(white, (3, 3)), (white, (2, 2)), (white, (4, 2)), (white, (3, 1)),
               (black, (2, 3)), (black, (4, 3)), (black, (3, 4))])"

definition ko_state :: game_state where
  "ko_state =
     GameState [ko_before, ko_after] 1 black
       (Some (GameState [ko_before, ko_after] 0 white None None)) (Some (play_move (3, 3)))"

lemmas place_stone_eval = place_stone_def Board_def is_on_grid_def row_def col_def neighbors_def
  GoString_def merged_with_def replace_string_def without_liberty_def num_liberties_def
  remove_string_def with_liberty_def Let_def

section \<open>Move and GoString\<close>

lemma factories_build:
  "play pt = Inr (play_move pt)" "pass_turn = Inr pass_move" "resign = Inr resign_move"
  by (simp_all add: play_def pass_turn_def resign_def Move_def play_move_def pass_move_def
      resign_move_def)

lemma Move_fails_iff:
  "(\<exists>e. Move pt ps rs = Inl e) \<longleftrightarrow>
     (pt = None \<and> \<not> ps \<and> \<not> rs) \<or> (pt \<noteq> None \<and> ps \<and> \<not> rs) \<or>
     (pt \<noteq> None \<and> \<not> ps \<and> rs) \<or> (pt = None \<and> ps \<and> rs)"
  by (auto simp: Move_def)

text \<open>
  Claim C6. Constructing a Move with zero variants selected, or with more than one of
  coordinate, pass, resign selected, fails, and each factory selects exactly one
  variant. The assertion of the constructor is the exclusive-or of three booleans, which
  is also true when all three are true: a Move built with a coordinate, \<^verbatim>\<open>is_pass=True\<close>
  and \<^verbatim>\<open>is_resign=True\<close> is constructed, with all three flags set.
\<close>

theorem Move_three_variants:
  "Move (Some (1, 1)) True True =
     Inr \<lparr>point = Some (1, 1), is_play = True, is_pass = True, is_resign = True\<rparr>"
  by (simp add: Move_def)

text \<open>
  Claim C5. For two groups of the same colour, \<^verbatim>\<open>merged_with\<close> returns a group whose
  stones are the union of the stones and whose liberties are the union of the liberties
  minus the combined stones; on groups of different colours it fails its assertion.
\<close>

theorem merged_with_correct:
  "(color a = color b \<longrightarrow>
      (\<exists>m. merged_with a b = Inr m \<and> color m = color a \<and>
           stones m = stones a \<union> stones b \<and>
           liberties m = (liberties a \<union> liberties b) - (stones a \<union> stones b))) \<and>
   (color a \<noteq> color b \<longrightarrow> merged_with a b = Inl AssertionError)"
  by (simp add: merged_with_def GoString_def Let_def)

theorem merged_with_correct_witness:
  "(\<exists>m. merged_with (GoString black {(1, 1)} {(1, 2), (2, 1)})
                     (GoString black {(1, 2)} {(1, 1), (1, 3), (2, 2)}) = Inr m \<and>
        color m = black \<and> stones m = {(1, 1), (1, 2)} \<and>
        liberties m = {(2, 1), (1, 3), (2, 2)}) \<and>
   merged_with (GoString black {(1, 1)} {(1, 2), (2, 1)})
               (GoString white {(1, 2)} {(1, 3), (2, 2)}) = Inl AssertionError"
  using merged_with_correct [of "GoString black {(1, 1)} {(1, 2), (2, 1)}"
                                "GoString black {(1, 2)} {(1, 1), (1, 3), (2, 2)}"]
    merged_with_correct [of "GoString black {(1, 1)} {(1, 2), (2, 1)}"
                            "GoString white {(1, 2)} {(1, 3), (2, 2)}"]
  by (auto simp: GoString_def)

section \<open>Game states\<close>

lemma has_history_new_game: "has_history (snd (new_game z h sz))"
  by (simp add: new_game_def GameState_def has_history_def split: sum.splits prod.splits)

lemma has_history_apply_move: "apply_move z h s mv = (h', Inr s') \<Longrightarrow> has_history s'"
  by (auto simp: apply_move_def GameState_def has_history_def Let_def
      split: if_splits sum.splits)

text \<open>
  Claim C9. \<^verbatim>\<open>is_over\<close> is false at the root state, true when the last move was a
  resignation, true when the last move and the move before it were both passes, and
  false in every other case. The states are those with a previous state behind every
  last move, which \<^verbatim>\<open>new_game\<close> and \<^verbatim>\<open>apply_move\<close> build (lemmas
  \<open>has_history_new_game\<close> and \<open>has_history_apply_move\<close>).
\<close>

theorem is_over_correct:
  assumes "has_history s"
  shows "is_over s = Inr (is_over_spec s)"
  using assms
  by (auto simp: is_over_def is_over_spec_def has_history_def split: option.splits)

theorem is_over_correct_witness:
  "has_history (State 0 white (Some (State 0 black None {} None)) {(black, 0)} (Some pass_move)) \<and>
   is_over (State 0 white (Some (State 0 black None {} None)) {(black, 0)} (Some pass_move))
     = Inr False \<and>
   has_history (State 0 black
       (Some (State 0 white (Some (State 0 black None {} None)) {(black, 0)} (Some pass_move)))
       {(black, 0), (white, 0)} (Some pass_move)) \<and>
   is_over (State 0 black
       (Some (State 0 white (Some (State 0 black None {} None)) {(black, 0)} (Some pass_move)))
       {(black, 0), (white, 0)} (Some pass_move)) = Inr True \<and>
   is_over (State 0 white (Some (State 0 black None {} None)) {(black, 0)} (Some resign_move))
     = Inr True"
  using
    is_over_correct [of "State 0 white (Some (State 0 black None {} None)) {(black, 0)}
                           (Some pass_move)"]
    is_over_correct [of "State 0 black
       (Some (State 0 white (Some (State 0 black None {} None)) {(black, 0)} (Some pass_move)))
       {(black, 0), (white, 0)} (Some pass_move)"]
    is_over_correct [of "State 0 white (Some (State 0 black None {} None)) {(black, 0)}
                           (Some resign_move)"]
  by (simp add: has_history_def is_over_spec_def pass_move_def resign_move_def)

lemma place_stone_at_other:
  "place_stone_at z h r pl pto = Inr h' \<Longrightarrow> r' \<noteq> r \<Longrightarrow> h' ! r' = h ! r'"
  by (auto simp: place_stone_at_def split: option.splits sum.splits)

text \<open>\<^verbatim>\<open>apply_move\<close> leaves every board that was in the store as it was.\<close>

lemma apply_move_store:
  assumes "apply_move z h s mv = (h', res)" and "r < length h"
  shows "h' ! r = h ! r"
proof (cases "is_play mv")
  case False
  with assms show ?thesis by (simp add: apply_move_def)
next
  case True
  show ?thesis
  proof (cases "place_stone_at z (h @ [h ! board s]) (length h) (next_player s) (point mv)")
    case (Inl e)
    with True assms show ?thesis by (simp add: apply_move_def Let_def)
  next
    case (Inr h2)
    with True assms have "h' = h2" by (simp add: apply_move_def Let_def)
    moreover from Inr assms(2) have "h2 ! r = (h @ [h ! board s]) ! r"
      by (intro place_stone_at_other) auto
    ultimately show ?thesis using assms(2) by (simp add: nth_append)
  qed
qed

text \<open>
  Claim C8. \<^verbatim>\<open>apply_move\<close> never observably alters the predecessor's board: for
  every game state whose board is in the store and every move (play, pass or resign,
  whether the call returns a state or faults), \<^verbatim>\<open>get\<close>, \<^verbatim>\<open>get_go_string\<close> and
  \<^verbatim>\<open>zobrist_hash\<close> on the board of the state give after the call what they gave before.
\<close>

theorem apply_move_frame:
  assumes "board s < length h" and "apply_move z h s mv = (h', res)"
  shows "h' ! board s = h ! board s \<and>
         get (h' ! board s) p = get (h ! board s) p \<and>
         get_go_string (h' ! board s) p = get_go_string (h ! board s) p \<and>
         zobrist_hash (h' ! board s) = zobrist_hash (h ! board s)"
  using apply_move_store [OF assms(2) assms(1)] by simp

theorem apply_move_frame_witness:
  "board (State 0 black None {} None) < length [Board example_table 5 5] \<and>
   (\<exists>h' s'. apply_move example_table [Board example_table 5 5] (State 0 black None {} None)
              (play_move (3, 3)) = (h', Inr s') \<and>
            board s' = 1 \<and>
            get (h' ! 1) (3, 3) = Some black \<and>
            get (h' ! 0) (3, 3) = None \<and>
            zobrist_hash (h' ! 0) = 0)"
proof -
  let ?h = "[Board example_table 5 5]" and ?s = "State 0 black None {} None"
  obtain h' s' where a: "apply_move example_table ?h ?s (play_move (3, 3)) = (h', Inr s')"
    and b: "board s' = 1" "get (h' ! 1) (3, 3) = Some black"
    by (simp add: apply_move_def play_move_def place_stone_at_def place_stone_eval
        GameState_def get_def)
  from apply_move_frame [of ?s ?h example_table "play_move (3, 3)" h' "Inr s'" "(3, 3)"] a
  have "get (h' ! 0) (3, 3) = None" "zobrist_hash (h' ! 0) = 0"
    by (simp_all add: Board_def get_def zobrist_hash_def example_table_def)
  with a b show ?thesis by simp
qed

text \<open>
  What \<^verbatim>\<open>apply_move\<close> builds when it returns a state: the other player is next, the
  previous link is the state the move was applied to, and the set of previous situations
  is that state's set together with the pair of that state's \<^verbatim>\<open>next_player\<close> and the hash
  of its board. A pass or a resignation always returns a state. The root state of
  \<^verbatim>\<open>new_game\<close> has no previous situations.
\<close>

lemma apply_move_fields:
  assumes "board s < length h"
  shows "(\<forall>h' s'. apply_move z h s mv = (h', Inr s') \<longrightarrow>
            next_player s' = other (next_player s) \<and>
            previous_state s' = Some s \<and>
            previous_states s' =
              previous_states s \<union> {(next_player s, zobrist_hash (h ! board s))}) \<and>
         (\<not> is_play mv \<longrightarrow> (\<exists>s'. apply_move z h s mv = (h, Inr s'))) \<and>
         previous_states (snd (new_game z h sz)) = {}"
proof (intro conjI allI impI)
  fix h' s' assume a: "apply_move z h s mv = (h', Inr s')"
  from apply_move_store [OF a assms] have eq: "h' ! board s = h ! board s" .
  from a have s': "s' = GameState h' (board s') (other (next_player s)) (Some s) (Some mv)"
    by (auto simp: apply_move_def Let_def GameState_def split: if_splits sum.splits)
  show "next_player s' = other (next_player s)" by (subst s') (simp add: GameState_def)
  show "previous_state s' = Some s" by (subst s') (simp add: GameState_def)
  show "previous_states s' = previous_states s \<union> {(next_player s, zobrist_hash (h ! board s))}"
    by (subst s') (simp add: GameState_def eq)
next
  assume "\<not> is_play mv"
  then show "\<exists>s'. apply_move z h s mv = (h, Inr s')" by (simp add: apply_move_def)
next
  show "previous_states (snd (new_game z h sz)) = {}"
    by (simp add: new_game_def GameState_def split: sum.splits prod.splits)
qed

text \<open>
  What \<^verbatim>\<open>does_move_violate_ko\<close> returns when the simulated placement yields a board,
  and on the moves built by \<^verbatim>\<open>pass_turn\<close> and \<^verbatim>\<open>resign\<close>.
\<close>

lemma does_move_violate_ko_when_placed:
  "(is_play mv \<and> point mv = Some pt \<and> place_stone z (h ! board s) pl pt = Inr next_board \<longrightarrow>
      does_move_violate_ko z h s pl mv =
        Inr ((other pl, zobrist_hash next_board) \<in> previous_states s)) \<and>
   (pass_turn = Inr mv \<or> resign = Inr mv \<longrightarrow> does_move_violate_ko z h s pl mv = Inr False)"
  by (auto simp: does_move_violate_ko_def pass_turn_def resign_def Move_def)

section \<open>Boards built by placements\<close>

lemma wf_board_Board: "wf_board (Board z r c)"
  by (simp add: wf_board_def Board_def)

lemma neighbors_sym: "q \<in> set (neighbors p) \<Longrightarrow> p \<in> set (neighbors q)"
  by (cases p; cases q) (auto simp: neighbors_def row_def col_def)

lemma neighbors_neq: "q \<in> set (neighbors p) \<Longrightarrow> q \<noteq> p"
  by (cases p; cases q) (auto simp: neighbors_def row_def col_def)

subsection \<open>The first loop of placement\<close>

lemma scan_neighbors_same:
  "scan_neighbors b pl ns (same0, opp0, libs0) = (same, opp, libs) \<Longrightarrow>
     set same \<subseteq> set same0 \<union> {s. \<exists>n\<in>set ns. grid b n = Some s \<and> color s = pl}"
proof (induction ns arbitrary: same0 opp0 libs0)
  case Nil
  then show ?case by simp
next
  case (Cons n ns)
  show ?case
  proof (cases "is_on_grid b n")
    case False
    with Cons.prems Cons.IH [of same0 opp0 libs0] show ?thesis by auto
  next
    case True
    show ?thesis
    proof (cases "grid b n")
      case None
      with True Cons.prems Cons.IH [of same0 opp0 "libs0 @ [n]"] show ?thesis by auto
    next
      case (Some t)
      with True Cons.prems Cons.IH [of same0 opp0 libs0] Cons.IH [of "same0 @ [t]" opp0 libs0]
        Cons.IH [of same0 "opp0 @ [t]" libs0]
      show ?thesis by (auto split: if_splits)
    qed
  qed
qed

lemma scan_neighbors_opp:
  "scan_neighbors b pl ns (same0, opp0, libs0) = (same, opp, libs) \<Longrightarrow>
     set opp \<subseteq> set opp0 \<union> {s. \<exists>n\<in>set ns. grid b n = Some s \<and> color s \<noteq> pl}"
proof (induction ns arbitrary: same0 opp0 libs0)
  case Nil
  then show ?case by simp
next
  case (Cons n ns)
  show ?case
  proof (cases "is_on_grid b n")
    case False
    with Cons.prems Cons.IH [of same0 opp0 libs0] show ?thesis by auto
  next
    case True
    show ?thesis
    proof (cases "grid b n")
      case None
      with True Cons.prems Cons.IH [of same0 opp0 "libs0 @ [n]"] show ?thesis by auto
    next
      case (Some t)
      with True Cons.prems Cons.IH [of same0 opp0 libs0] Cons.IH [of "same0 @ [t]" opp0 libs0]
        Cons.IH [of same0 "opp0 @ [t]" libs0]
      show ?thesis by (auto split: if_splits)
    qed
  qed
qed

lemma scan_neighbors_distinct:
  "scan_neighbors b pl ns (same0, opp0, libs0) = (same, opp, libs) \<Longrightarrow> distinct opp0 \<Longrightarrow>
     distinct opp"
  by (induction ns arbitrary: same0 opp0 libs0)
     (auto split: if_splits option.splits)

subsection \<open>Merging\<close>

lemma merge_all_result:
  "merge_all s0 ss = Inr m \<Longrightarrow>
     color m = color s0 \<and> stones m = stones s0 \<union> \<Union> (stones ` set ss)"
  by (induction ss arbitrary: s0)
     (auto simp: merged_with_def GoString_def Let_def split: if_splits sum.splits)

subsection \<open>Removal faults\<close>

lemma restore_liberties_faults:
  "n \<in> set ns \<Longrightarrow> grid b n = Some s' \<Longrightarrow> s' \<noteq> string \<Longrightarrow>
     restore_liberties string pt ns b = Inl AttributeError"
  by (induction ns) (auto simp: with_liberty_def split: option.splits)

lemma restore_liberties_Inr: "restore_liberties string pt ns b = Inr b' \<Longrightarrow> b' = b"
  by (induction ns) (auto simp: with_liberty_def split: option.splits if_splits)

lemma remove_points_faults:
  "p \<in> set xs \<Longrightarrow> n \<in> set (neighbors p) \<Longrightarrow> n \<notin> set xs \<Longrightarrow> grid b n = Some s' \<Longrightarrow>
     s' \<noteq> string \<Longrightarrow> \<exists>e. remove_points z string xs b = Inl e"
proof (induction xs arbitrary: b)
  case Nil
  then show ?case by simp
next
  case (Cons x xs)
  show ?case
  proof (cases "restore_liberties string x (neighbors x) b")
    case (Inl e)
    then show ?thesis by simp
  next
    case (Inr b1)
    then have b1: "b1 = b" by (rule restore_liberties_Inr)
    have "p \<noteq> x"
    proof
      assume "p = x"
      with Cons.prems have "restore_liberties string x (neighbors x) b = Inl AttributeError"
        by (intro restore_liberties_faults) auto
      with Inr show False by simp
    qed
    with Cons.prems have "p \<in> set xs" "n \<notin> set xs" "n \<noteq> x" by auto
    with Cons.prems Cons.IH [of "b\<lparr>grid := (grid b)(x := None), hash := hash b XOR HASH_CODE z (x, color string)\<rparr>"]
    show ?thesis using Inr b1 by simp
  qed
qed

subsection \<open>Replacing a string\<close>

lemma wf_boardD:
  "wf_board b \<Longrightarrow> grid b p = Some s \<Longrightarrow>
     p \<in> stones s \<and> finite (stones s) \<and> is_on_grid b p \<and> (\<forall>q\<in>stones s. grid b q = Some s)"
  unfolding wf_board_def by blast

lemma replace_string_fields [simp]:
  "hash (replace_string s b) = hash b"
  "num_rows (replace_string s b) = num_rows b"
  "num_cols (replace_string s b) = num_cols b"
  "grid (replace_string s b) p = (if p \<in> stones s then Some s else grid b p)"
  by (simp_all add: replace_string_def)

lemma is_on_grid_replace_string [simp]: "is_on_grid (replace_string s b) p = is_on_grid b p"
  by (simp add: is_on_grid_def)

lemma without_liberty_fields [simp]:
  "color (without_liberty s pt) = color s"
  "stones (without_liberty s pt) = stones s"
  by (simp_all add: without_liberty_def GoString_def)

lemma replace_without_liberty_grid:
  assumes "wf_board b" and "grid b q = Some s"
  shows "grid (replace_string (without_liberty s pt) b) p =
           (if grid b p = Some s then Some (without_liberty s pt) else grid b p)"
proof (cases "grid b p = Some s")
  case True
  with wf_boardD [OF assms(1) True] show ?thesis by simp
next
  case False
  have "p \<notin> stones s"
  proof
    assume "p \<in> stones s"
    with wf_boardD [OF assms] have "grid b p = Some s" by simp
    with False show False by simp
  qed
  with False show ?thesis by simp
qed

lemma replace_without_liberty_wf:
  assumes "wf_board b" and "grid b q = Some s"
  shows "wf_board (replace_string (without_liberty s pt) b)"
  unfolding wf_board_def
proof (intro allI impI)
  fix p t
  let ?b2 = "replace_string (without_liberty s pt) b"
  assume t: "grid ?b2 p = Some t"
  note g = replace_without_liberty_grid [OF assms, of pt]
  show "p \<in> stones t \<and> finite (stones t) \<and> is_on_grid ?b2 p \<and> (\<forall>q\<in>stones t. grid ?b2 q = Some t)"
  proof (cases "grid b p = Some s")
    case True
    with t g [of p] have "t = without_liberty s pt" by simp
    with wf_boardD [OF assms(1) True] show ?thesis by simp
  next
    case False
    with t g [of p] have tb: "grid b p = Some t" by simp
    with False have ts: "t \<noteq> s" by auto
    note wft = wf_boardD [OF assms(1) tb]
    have "grid ?b2 q' = Some t" if "q' \<in> stones t" for q'
    proof -
      from that wft have "grid b q' = Some t" by simp
      with ts show ?thesis by (simp add: g del: replace_string_fields(4))
    qed
    with wft show ?thesis by simp
  qed
qed

lemma replace_without_liberty_get:
  assumes "wf_board b" and "grid b q = Some s"
  shows "get (replace_string (without_liberty s pt) b) = get b"
  by (rule ext) (simp add: get_def replace_without_liberty_grid [OF assms] del: replace_string_fields(4))

lemma reduce_opposite_ok:
  assumes "reduce_opposite z pt opp b = Inr b'" and "wf_board b" and "grid b pt = Some ns"
    and "color ns = pl" and "distinct opp"
    and "\<forall>s\<in>set opp. color s \<noteq> pl \<and> (\<exists>q\<in>set (neighbors pt). grid b q = Some s)"
  shows "wf_board b' \<and> get b' = get b \<and> hash b' = hash b \<and> num_rows b' = num_rows b \<and>
         num_cols b' = num_cols b \<and> grid b' pt = Some ns"
  using assms
proof (induction opp arbitrary: b)
  case Nil
  then show ?case by simp
next
  case (Cons s ss)
  from Cons.prems(6) obtain q where q: "q \<in> set (neighbors pt)" "grid b q = Some s"
    and cs: "color s \<noteq> pl" by auto
  note wfs = wf_boardD [OF Cons.prems(2) q(2)]
  from cs Cons.prems(3,4) have ne: "ns \<noteq> s" by auto
  have pt_out: "pt \<notin> stones s"
  proof
    assume "pt \<in> stones s"
    with wfs have "grid b pt = Some s" by simp
    with Cons.prems(3) ne show False by simp
  qed
  let ?b2 = "replace_string (without_liberty s pt) b"
  have live: "num_liberties (without_liberty s pt) \<noteq> 0"
  proof
    assume zero: "num_liberties (without_liberty s pt) = 0"
    have "\<exists>e. remove_points z s (sorted_list_of_set (stones s)) b = Inl e"
    proof (rule remove_points_faults [where p = q and n = pt and s' = ns])
      show "q \<in> set (sorted_list_of_set (stones s))" using wfs by simp
      show "pt \<in> set (neighbors q)" using q(1) by (rule neighbors_sym)
      show "pt \<notin> set (sorted_list_of_set (stones s))" using wfs pt_out by simp
      show "grid b pt = Some ns" by (rule Cons.prems(3))
      show "ns \<noteq> s" by (rule ne)
    qed
    then obtain e where "remove_string z s b = Inl e" by (auto simp: remove_string_def)
    with zero have "reduce_opposite z pt (s # ss) b = Inl e" by simp
    with Cons.prems(1) show False by simp
  qed
  with Cons.prems(1) have run: "reduce_opposite z pt ss ?b2 = Inr b'" by simp
  have wf2: "wf_board ?b2" by (rule replace_without_liberty_wf [OF Cons.prems(2) q(2)])
  have pt2: "grid ?b2 pt = Some ns" using pt_out Cons.prems(3) by simp
  have rest: "\<forall>t\<in>set ss. color t \<noteq> pl \<and> (\<exists>q\<in>set (neighbors pt). grid ?b2 q = Some t)"
  proof
    fix t assume t: "t \<in> set ss"
    with Cons.prems(5) have "t \<noteq> s" by auto
    moreover from t Cons.prems(6) obtain q' where "color t \<noteq> pl" "q' \<in> set (neighbors pt)"
      "grid b q' = Some t" by auto
    ultimately have "color t \<noteq> pl" "q' \<in> set (neighbors pt)" "grid ?b2 q' = Some t"
      by (simp_all add: replace_without_liberty_grid [OF Cons.prems(2) q(2)]
          del: replace_string_fields(4))
    then show "color t \<noteq> pl \<and> (\<exists>q\<in>set (neighbors pt). grid ?b2 q = Some t)" by blast
  qed
  from Cons.prems(5) have "distinct ss" by simp
  from Cons.IH [OF run wf2 pt2 Cons.prems(4) this rest]
  show ?case by (simp add: replace_without_liberty_get [OF Cons.prems(2) q(2)])
qed

subsection \<open>A successful placement\<close>

lemma is_on_grid_hash_update [simp]: "is_on_grid (b\<lparr>hash := x\<rparr>) p = is_on_grid b p"
  by (simp add: is_on_grid_def)

lemma get_hash_update [simp]: "get (b\<lparr>hash := x\<rparr>) = get b"
  by (rule ext) (simp add: get_def)

lemma wf_board_hash_update [simp]: "wf_board (b\<lparr>hash := x\<rparr>) = wf_board b"
  by (simp add: wf_board_def)

lemma place_stone_ok:
  assumes wf: "wf_board b" and run: "place_stone z b pl pt = Inr b'"
  shows "wf_board b' \<and> get b' = (get b)(pt \<mapsto> pl) \<and>
         hash b' = hash b XOR HASH_CODE z (pt, pl) \<and>
         num_rows b' = num_rows b \<and> num_cols b' = num_cols b \<and>
         is_on_grid b pt \<and> grid b pt = None \<and>
         (\<exists>same opp libs ns.
            scan_neighbors b pl (neighbors pt) ([], [], []) = (same, opp, libs) \<and>
            merge_all (GoString pl {pt} (set libs)) same = Inr ns \<and>
            grid b' pt = Some ns)"
proof -
  have W1: "p \<in> stones s" if "grid b p = Some s" for p s
    using wf_boardD [OF wf that] by blast
  have W2: "grid b q = Some s" if "grid b p = Some s" "q \<in> stones s" for p q s
    using wf_boardD [OF wf that(1)] that(2) by blast
  have W3: "finite (stones s)" if "grid b p = Some s" for p s
    using wf_boardD [OF wf that] by blast
  have W4: "is_on_grid b p" if "grid b p = Some s" for p s
    using wf_boardD [OF wf that] by blast
  from run have on: "is_on_grid b pt"
    by (simp add: place_stone_def split: if_splits)
  from run have empty: "grid b pt = None"
    by (simp add: place_stone_def split: if_splits)
  obtain same opp libs where
    scan: "scan_neighbors b pl (neighbors pt) ([], [], []) = (same, opp, libs)"
    by (cases "scan_neighbors b pl (neighbors pt) ([], [], [])") blast
  let ?b1 = "\<lambda>ns. (replace_string ns b)\<lparr>hash := hash b XOR HASH_CODE z (pt, pl)\<rparr>"
  from run on empty scan have
    "(case merge_all (GoString pl {pt} (set libs)) same of
        Inl e \<Rightarrow> Inl e
      | Inr new_string \<Rightarrow> reduce_opposite z pt opp (?b1 new_string)) = Inr b'"
    by (simp add: place_stone_def)
  then obtain ns where
    merge: "merge_all (GoString pl {pt} (set libs)) same = Inr ns" and
    red: "reduce_opposite z pt opp (?b1 ns) = Inr b'"
    by (cases "merge_all (GoString pl {pt} (set libs)) same") simp_all
  from merge_all_result [OF merge]
  have cns: "color ns = pl" and sns: "stones ns = {pt} \<union> \<Union> (stones ` set same)"
    by (simp_all add: GoString_def)
  from scan_neighbors_same [OF scan]
  have "set same \<subseteq> {s. \<exists>n\<in>set (neighbors pt). grid b n = Some s \<and> color s = pl}" by simp
  then have same_col: "color s = pl" and same_in: "\<exists>n. grid b n = Some s"
    if "s \<in> set same" for s using that by blast+
  from scan_neighbors_opp [OF scan]
  have "set opp \<subseteq> {s. \<exists>n\<in>set (neighbors pt). grid b n = Some s \<and> color s \<noteq> pl}" by simp
  then have opp: "color s \<noteq> pl \<and> (\<exists>n\<in>set (neighbors pt). grid b n = Some s)"
    if "s \<in> set opp" for s using that by blast
  from scan_neighbors_distinct [OF scan] have dist: "distinct opp" by simp
  have K1: "p = pt \<or> (\<exists>s\<in>set same. grid b p = Some s)" if "p \<in> stones ns" for p
  proof -
    from that sns have "p = pt \<or> (\<exists>s\<in>set same. p \<in> stones s)" by blast
    then show ?thesis
    proof
      assume "p = pt" then show ?thesis by blast
    next
      assume "\<exists>s\<in>set same. p \<in> stones s"
      then obtain s where s: "s \<in> set same" "p \<in> stones s" by blast
      from same_in [OF s(1)] obtain n where "grid b n = Some s" by blast
      from W2 [OF this s(2)] s(1) show ?thesis by blast
    qed
  qed
  have K2: "p \<in> stones ns" if "s \<in> set same" "grid b p = Some s" for p s
  proof -
    from W1 [OF that(2)] that(1) have "p \<in> \<Union> (stones ` set same)" by blast
    with sns show ?thesis by blast
  qed
  have K3: "pt \<in> stones ns" using sns by blast
  have g1: "grid (?b1 ns) p = (if p \<in> stones ns then Some ns else grid b p)" for p by simp
  have fin: "finite (stones ns)"
  proof -
    have "finite (stones s)" if "s \<in> set same" for s
    proof -
      from same_in [OF that] obtain n where "grid b n = Some s" by blast
      then show ?thesis by (rule W3)
    qed
    then have "finite (\<Union> (stones ` set same))" by blast
    with sns show ?thesis by simp
  qed
  have wf1: "wf_board (?b1 ns)"
    unfolding wf_board_hash_update unfolding wf_board_def
  proof (intro allI impI)
    fix p t assume t: "grid (replace_string ns b) p = Some t"
    show "p \<in> stones t \<and> finite (stones t) \<and> is_on_grid (replace_string ns b) p \<and>
          (\<forall>q\<in>stones t. grid (replace_string ns b) q = Some t)"
    proof (cases "p \<in> stones ns")
      case True
      with t have tn: "t = ns" by simp
      from K1 [OF True] on W4 have "is_on_grid b p" by blast
      with tn True fin show ?thesis by simp
    next
      case False
      with t have tb: "grid b p = Some t" by simp
      have "grid (replace_string ns b) q = Some t" if "q \<in> stones t" for q
      proof -
        from W2 [OF tb that] have qt: "grid b q = Some t" .
        have "q \<notin> stones ns"
        proof
          assume "q \<in> stones ns"
          from K1 [OF this] qt empty have "t \<in> set same" by auto
          from K2 [OF this tb] False show False by blast
        qed
        with qt show ?thesis by simp
      qed
      moreover have "is_on_grid (replace_string ns b) p" using W4 [OF tb] by simp
      ultimately show ?thesis using W1 [OF tb] W3 [OF tb] by blast
    qed
  qed
  have pt1: "grid (?b1 ns) pt = Some ns" using K3 by simp
  have opp1: "\<forall>s\<in>set opp. color s \<noteq> pl \<and> (\<exists>q\<in>set (neighbors pt). grid (?b1 ns) q = Some s)"
  proof
    fix s assume "s \<in> set opp"
    from opp [OF this] obtain n where n: "color s \<noteq> pl" "n \<in> set (neighbors pt)"
      "grid b n = Some s" by blast
    have "n \<notin> stones ns"
    proof
      assume "n \<in> stones ns"
      from K1 [OF this] n(3) empty have "s \<in> set same" by auto
      from same_col [OF this] n(1) show False by blast
    qed
    with n(3) have "grid (?b1 ns) n = Some s" by simp
    with n show "color s \<noteq> pl \<and> (\<exists>q\<in>set (neighbors pt). grid (?b1 ns) q = Some s)" by blast
  qed
  have get1: "get (?b1 ns) = (get b)(pt \<mapsto> pl)"
  proof (rule ext)
    fix p
    show "get (?b1 ns) p = ((get b)(pt \<mapsto> pl)) p"
    proof (cases "p \<in> stones ns")
      case True
      from K1 [OF True] show ?thesis
      proof
        assume "p = pt" with True cns show ?thesis by (simp add: get_def)
      next
        assume "\<exists>s\<in>set same. grid b p = Some s"
        then obtain s where s: "s \<in> set same" "grid b p = Some s" by blast
        from s(2) empty have "p \<noteq> pt" by auto
        with True cns s(2) same_col [OF s(1)] show ?thesis by (simp add: get_def)
      qed
    next
      case False
      with K3 have "p \<noteq> pt" by blast
      with False show ?thesis by (simp add: get_def)
    qed
  qed
  note r = reduce_opposite_ok [OF red wf1 pt1 cns dist opp1]
  from r have "wf_board b'" by blast
  moreover from r get1 have "get b' = (get b)(pt \<mapsto> pl)" by simp
  moreover from r have "hash b' = hash b XOR HASH_CODE z (pt, pl)" by simp
  moreover from r have "num_rows b' = num_rows b" "num_cols b' = num_cols b" by simp_all
  moreover from r scan merge have "\<exists>same opp libs ns.
            scan_neighbors b pl (neighbors pt) ([], [], []) = (same, opp, libs) \<and>
            merge_all (GoString pl {pt} (set libs)) same = Inr ns \<and>
            grid b' pt = Some ns" by blast
  ultimately show ?thesis using on empty by blast
qed

subsection \<open>The hash of the position\<close>

lemma xor_codes_shift: "xor_codes z g xs (a XOR c) = xor_codes z g xs a XOR c"
proof (induction xs arbitrary: a)
  case Nil
  then show ?case by simp
next
  case (Cons x xs)
  show ?case
  proof (cases "g x")
    case None
    with Cons.IH [of a] show ?thesis by simp
  next
    case (Some d)
    have "(a XOR c) XOR HASH_CODE z (x, d) = (a XOR HASH_CODE z (x, d)) XOR c"
      by (simp add: ac_simps)
    with Some Cons.IH [of "a XOR HASH_CODE z (x, d)"] show ?thesis by simp
  qed
qed

lemma xor_codes_update:
  assumes "g pt = None" and "distinct xs"
  shows "xor_codes z (g(pt \<mapsto> pl)) xs a =
           (if pt \<in> set xs then xor_codes z g xs a XOR HASH_CODE z (pt, pl)
            else xor_codes z g xs a)"
  using assms(2)
proof (induction xs arbitrary: a)
  case Nil
  then show ?case by simp
next
  case (Cons x xs)
  then show ?case using assms(1) by (auto simp: xor_codes_shift)
qed

lemma distinct_all_points: "distinct (all_points b)"
  by (simp add: all_points_def distinct_product)

lemma set_all_points: "p \<in> set (all_points b) \<longleftrightarrow> is_on_grid b p"
  by (cases p) (auto simp: all_points_def is_on_grid_def row_def col_def)

lemma position_hash_place:
  assumes "get b' = (get b)(pt \<mapsto> pl)" and "grid b pt = None" and "is_on_grid b pt"
    and "num_rows b' = num_rows b" and "num_cols b' = num_cols b"
  shows "position_hash z b' = position_hash z b XOR HASH_CODE z (pt, pl)"
proof -
  from assms(4,5) have ap: "all_points b' = all_points b" by (simp add: all_points_def)
  from assms(2) have "get b pt = None" by (simp add: get_def)
  from xor_codes_update [of "get b" pt "all_points b" z pl "EMPTY_BOARD z", OF this distinct_all_points]
    assms(1,3) ap
  show ?thesis by (simp add: position_hash_def set_all_points)
qed

lemma place_stone_inv:
  assumes "wf_board b" and "zobrist_hash b = position_hash z b" and "place_stone z b pl pt = Inr b'"
  shows "wf_board b' \<and> zobrist_hash b' = position_hash z b'"
proof -
  note ok = place_stone_ok [OF assms(1,3)]
  from ok have "position_hash z b' = position_hash z b XOR HASH_CODE z (pt, pl)"
    by (intro position_hash_place) simp_all
  with ok assms(2) show ?thesis by (simp add: zobrist_hash_def)
qed

lemma place_stones_inv:
  "place_stones z b ms = Inr b' \<Longrightarrow> wf_board b \<Longrightarrow> zobrist_hash b = position_hash z b \<Longrightarrow>
     wf_board b' \<and> zobrist_hash b' = position_hash z b'"
proof (induction ms arbitrary: b)
  case Nil
  then show ?case by simp
next
  case (Cons m ms)
  obtain pl pt where m: "m = (pl, pt)" by (cases m)
  with Cons.prems(1) obtain b1 where 1: "place_stone z b pl pt = Inr b1"
    and 2: "place_stones z b1 ms = Inr b'" by (auto split: sum.splits)
  from place_stone_inv [OF Cons.prems(2,3) 1] Cons.IH [OF 2] show ?case by simp
qed

lemma position_hash_Board: "position_hash z (Board z r c) = EMPTY_BOARD z"
proof -
  have "xor_codes z (\<lambda>p. None) xs a = a" for xs a
    by (induction xs arbitrary: a) auto
  then show ?thesis by (simp add: position_hash_def get_def [abs_def] Board_def)
qed

lemma place_stones_wf:
  "place_stones z (Board z r c) ms = Inr b \<Longrightarrow> wf_board b"
proof -
  assume a: "place_stones z (Board z r c) ms = Inr b"
  have "zobrist_hash (Board z r c) = position_hash z (Board z r c)"
    by (simp add: position_hash_Board) (simp add: zobrist_hash_def Board_def)
  from place_stones_inv [OF a wf_board_Board this] show ?thesis by blast
qed

text \<open>
  A placement that returns a board has removed no stone: every coordinate keeps its
  colour and the played coordinate gets the colour of the player. A placement that would
  capture therefore does not return.
\<close>

lemma successful_placement_removes_nothing:
  assumes "place_stones z (Board z r c) ms = Inr b" and "place_stone z b pl pt = Inr b'"
  shows "get b' = (get b)(pt \<mapsto> pl)"
  using place_stone_ok [OF place_stones_wf [OF assms(1)] assms(2)] by blast



text \<open>
  Claim C10. \<^verbatim>\<open>place_stone\<close> never removes the group of the player who places: on a
  board built by placements, after a placement that returns, the merged group is stored
  at the played coordinate and \<^verbatim>\<open>get_go_string\<close> returns it whatever the number of its
  liberties, zero included; every stone of the player's colour is still there; and
  \<^verbatim>\<open>is_move_self_capture\<close> on that board and move reports whether the group has zero
  liberties.
\<close>

theorem place_stone_keeps_own_group:
  assumes "place_stones z (Board z r c) ms = Inr b" and "place_stone z b pl pt = Inr b'"
  shows "(\<exists>same opp libs new_string.
            scan_neighbors b pl (neighbors pt) ([], [], []) = (same, opp, libs) \<and>
            merge_all (GoString pl {pt} (set libs)) same = Inr new_string \<and>
            get_go_string b' pt = Some new_string \<and>
            color new_string = pl \<and> pt \<in> stones new_string \<and>
            (\<forall>h st mv. h ! board st = b \<and> is_play mv \<and> point mv = Some pt \<longrightarrow>
               is_move_self_capture z h st pl mv = Inr (num_liberties new_string = 0))) \<and>
         (\<forall>q. get b q = Some pl \<longrightarrow> get b' q = Some pl)"
proof -
  note ok = place_stone_ok [OF place_stones_wf [OF assms(1)] assms(2)]
  from ok obtain same opp libs ns where
    scan: "scan_neighbors b pl (neighbors pt) ([], [], []) = (same, opp, libs)" and
    merge: "merge_all (GoString pl {pt} (set libs)) same = Inr ns" and
    at: "grid b' pt = Some ns" by blast
  from merge_all_result [OF merge] have col: "color ns = pl" and mem: "pt \<in> stones ns"
    by (simp_all add: GoString_def)
  from at have ggs: "get_go_string b' pt = Some ns" by (simp add: get_go_string_def)
  have "is_move_self_capture z h st pl mv = Inr (num_liberties ns = 0)"
    if "h ! board st = b \<and> is_play mv \<and> point mv = Some pt" for h st mv
    using that assms(2) ggs by (simp add: is_move_self_capture_def)
  moreover have "get b' q = Some pl" if "get b q = Some pl" for q
  proof -
    from ok have "get b' = (get b)(pt \<mapsto> pl)" by blast
    with that show ?thesis by simp
  qed
  ultimately show ?thesis using scan merge ggs col mem by blast
qed

theorem place_stone_keeps_own_group_witness:
  "place_stones example_table (Board example_table 5 5)
     [(black, (2, 3)), (black, (4, 3)), (black, (3, 2)), (black, (3, 4)), (white, (1, 1))] = Inr suicide_board \<and>
   (\<exists>b'. place_stone example_table suicide_board white (3, 3) = Inr b' \<and>
         get_go_string b' (3, 3) = Some (GoString white {(3, 3)} {}) \<and>
         num_liberties (GoString white {(3, 3)} {}) = 0 \<and>
         get b' (1, 1) = Some white) \<and>
   is_move_self_capture example_table [suicide_board] (State 0 white None {} None) white
     (play_move (3, 3)) = Inr True"
proof -
  have a: "place_stones example_table (Board example_table 5 5)
     [(black, (2, 3)), (black, (4, 3)), (black, (3, 2)), (black, (3, 4)), (white, (1, 1))] = Inr suicide_board"
    by (simp add: suicide_board_def place_stone_eval)
  obtain b' where b: "place_stone example_table suicide_board white (3, 3) = Inr b'"
    and g: "get_go_string b' (3, 3) = Some (GoString white {(3, 3)} {})"
    by (simp add: suicide_board_def place_stone_eval get_go_string_def)
  have n: "num_liberties (GoString white {(3, 3)} {}) = 0"
    by (simp add: num_liberties_def GoString_def)
  have old: "get suicide_board (1, 1) = Some white"
    by (simp add: suicide_board_def place_stone_eval get_def)
  note t = place_stone_keeps_own_group [OF a b]
  from t g have "\<forall>h st mv. h ! board st = suicide_board \<and> is_play mv \<and> point mv = Some (3, 3) \<longrightarrow>
      is_move_self_capture example_table h st white mv
        = Inr (num_liberties (GoString white {(3, 3)} {}) = 0)"
    by auto
  then have "is_move_self_capture example_table [suicide_board] (State 0 white None {} None) white
     (play_move (3, 3)) = Inr (num_liberties (GoString white {(3, 3)} {}) = 0)"
    by (simp add: play_move_def)
  moreover from t old have "get b' (1, 1) = Some white" by simp
  ultimately show ?thesis using a b g n by simp
qed

section \<open>Capture\<close>

text \<open>
  Claim C1. On an empty 5x5 board black plays (3,3) and white plays (2,3), (4,3), (3,2);
  these four placements return and (3,3) holds a black stone. The fourth white
  placement, at (3,4), leaves the black stone without liberties, \<^verbatim>\<open>_remove_string\<close>
  calls \<^verbatim>\<open>with_liberty\<close> on the white neighbour at (2,3), and the call faults with
  \<^verbatim>\<open>AttributeError\<close> instead of emptying (3,3).
\<close>

theorem capture_faults:
  "(case place_stones example_table (Board example_table 5 5)
           [(black, (3, 3)), (white, (2, 3)), (white, (4, 3)), (white, (3, 2))] of
      Inl e \<Rightarrow> False
    | Inr b \<Rightarrow> get b (3, 3) = Some black \<and>
               place_stone example_table b white (3, 4) = Inl AttributeError)"
  by (simp add: place_stone_eval get_def)

lemma ko_boards:
  "get ko_before (3, 2) = Some black \<and> get ko_before (3, 3) = None \<and>
   get ko_after (3, 2) = None \<and> get ko_after (3, 3) = Some white \<and>
   (\<forall>p. p \<noteq> (3, 2) \<and> p \<noteq> (3, 3) \<longrightarrow> get ko_after p = get ko_before p)"
  by (simp add: ko_before_def ko_after_def place_stone_eval get_def)

text \<open>
  Claim C2. Rule violations are reported as a boolean by \<^verbatim>\<open>is_valid_move\<close> and its
  predicates, which never fault. After black (3,3), white (2,3), pass, white (4,3), pass,
  white (3,2), pass, the game is not over, it is white's turn and (3,4) is empty;
  \<^verbatim>\<open>is_valid_move\<close> for the play at (3,4) faults with \<^verbatim>\<open>AttributeError\<close> in the
  simulated placement of \<^verbatim>\<open>is_move_self_capture\<close>. In the ko position \<open>ko_state\<close> the
  situation (white, hash of \<open>ko_before\<close>) is in the history and black's recapture at (3,2)
  would recreate it; \<^verbatim>\<open>does_move_violate_ko\<close> and \<^verbatim>\<open>is_valid_move\<close> both fault on it.
\<close>

theorem is_valid_move_faults:
  "(case apply_moves example_table [Board example_table 5 5] (State 0 black None {} None)
           [play_move (3, 3), play_move (2, 3), pass_move, play_move (4, 3), pass_move,
            play_move (3, 2), pass_move] of
      (h, Inl e) \<Rightarrow> False
    | (h, Inr s) \<Rightarrow>
        next_player s = white \<and> is_over s = Inr False \<and>
        get (h ! board s) (3, 4) = None \<and>
        is_valid_move example_table h s (play_move (3, 4)) = Inl AttributeError) \<and>
   (white, zobrist_hash ko_before) \<in> previous_states ko_state \<and>
   is_over ko_state = Inr False \<and>
   does_move_violate_ko example_table [ko_before, ko_after] ko_state black (play_move (3, 2))
     = Inl AttributeError \<and>
   is_valid_move example_table [ko_before, ko_after] ko_state (play_move (3, 2))
     = Inl AttributeError"
proof -
  have "(case apply_moves example_table [Board example_table 5 5] (State 0 black None {} None)
           [play_move (3, 3), play_move (2, 3), pass_move, play_move (4, 3), pass_move,
            play_move (3, 2), pass_move] of
      (h, Inl e) \<Rightarrow> False
    | (h, Inr s) \<Rightarrow>
        next_player s = white \<and> is_over s = Inr False \<and>
        get (h ! board s) (3, 4) = None \<and>
        is_valid_move example_table h s (play_move (3, 4)) = Inl AttributeError)"
    by (simp add: apply_move_def play_move_def pass_move_def place_stone_at_def place_stone_eval
        GameState_def get_def is_valid_move_def is_over_def is_move_self_capture_def
        get_go_string_def)
  moreover have "(white, zobrist_hash ko_before) \<in> previous_states ko_state \<and>
     is_over ko_state = Inr False \<and>
     does_move_violate_ko example_table [ko_before, ko_after] ko_state black (play_move (3, 2))
       = Inl AttributeError \<and>
     is_valid_move example_table [ko_before, ko_after] ko_state (play_move (3, 2))
       = Inl AttributeError"
    by (simp add: ko_state_def GameState_def is_over_def play_move_def does_move_violate_ko_def
        is_valid_move_def is_move_self_capture_def ko_after_def place_stone_eval get_def)
  ultimately show ?thesis by blast
qed

text \<open>
  Claim C3. For every play move \<^verbatim>\<open>does_move_violate_ko\<close> returns true exactly when the
  pair of the other player and the hash of the board after the simulated placement is
  among the previous situations. In the ko position \<open>ko_state\<close> it is black's turn, (3,2)
  is empty, the situation (white, hash of \<open>ko_before\<close>) is in the history, and black's
  recapture at (3,2) would recreate \<open>ko_before\<close>: the answer the claim gives is true, and
  the call faults with \<^verbatim>\<open>AttributeError\<close> in the simulated placement. In the game black
  (3,3), white (2,3), pass, white (4,3), pass, white (3,2), pass, white's capture at (3,4)
  repeats nothing: the answer the claim gives is false, and the call faults the same way.
\<close>

theorem does_move_violate_ko_faults:
  "next_player ko_state = black \<and> board ko_state = 1 \<and>
   get ([ko_before, ko_after] ! 1) (3, 2) = None \<and>
   (white, zobrist_hash ko_before) \<in> previous_states ko_state \<and>
   does_move_violate_ko example_table [ko_before, ko_after] ko_state black (play_move (3, 2))
     = Inl AttributeError \<and>
   (case apply_moves example_table [Board example_table 5 5] (State 0 black None {} None)
           [play_move (3, 3), play_move (2, 3), pass_move, play_move (4, 3), pass_move,
            play_move (3, 2), pass_move] of
      (h, Inl e) \<Rightarrow> False
    | (h, Inr s) \<Rightarrow>
        next_player s = white \<and> get (h ! board s) (3, 4) = None \<and>
        does_move_violate_ko example_table h s white (play_move (3, 4)) = Inl AttributeError)"
proof -
  have "next_player ko_state = black \<and> board ko_state = 1 \<and>
     get ([ko_before, ko_after] ! 1) (3, 2) = None \<and>
     (white, zobrist_hash ko_before) \<in> previous_states ko_state \<and>
     does_move_violate_ko example_table [ko_before, ko_after] ko_state black (play_move (3, 2))
       = Inl AttributeError"
    by (simp add: ko_state_def GameState_def play_move_def does_move_violate_ko_def
        ko_after_def place_stone_eval get_def)
  moreover have "(case apply_moves example_table [Board example_table 5 5]
           (State 0 black None {} None)
           [play_move (3, 3), play_move (2, 3), pass_move, play_move (4, 3), pass_move,
            play_move (3, 2), pass_move] of
      (h, Inl e) \<Rightarrow> False
    | (h, Inr s) \<Rightarrow>
        next_player s = white \<and> get (h ! board s) (3, 4) = None \<and>
        does_move_violate_ko example_table h s white (play_move (3, 4)) = Inl AttributeError)"
    by (simp add: apply_move_def play_move_def pass_move_def place_stone_at_def place_stone_eval
        GameState_def get_def does_move_violate_ko_def)
  ultimately show ?thesis by blast
qed

text \<open>
  Claim C7. For every game state and move \<^verbatim>\<open>apply_move\<close> returns a new game state with
  the other player next, the previous link and the extended set of previous situations.
  In the game black (3,3), white (2,3), pass, white (4,3), pass, white (3,2), pass, built
  by \<^verbatim>\<open>apply_move\<close> from a new 5x5 game, the game is not over, it is white's turn and
  (3,4) is empty; \<^verbatim>\<open>apply_move\<close> for white's play at (3,4), which captures the black stone
  at (3,3), returns no state: it faults with \<^verbatim>\<open>AttributeError\<close>.
\<close>

theorem apply_move_faults:
  "(case apply_moves example_table (fst (new_game example_table [] (Inl 5)))
           (snd (new_game example_table [] (Inl 5)))
           [play_move (3, 3), play_move (2, 3), pass_move, play_move (4, 3), pass_move,
            play_move (3, 2), pass_move] of
      (h, Inl e) \<Rightarrow> False
    | (h, Inr s) \<Rightarrow>
        next_player s = white \<and> is_over s = Inr False \<and>
        get (h ! board s) (3, 4) = None \<and>
        apply_move example_table h s (play_move (3, 4)) = (h, Inl AttributeError))"
  by (simp add: new_game_def apply_move_def play_move_def pass_move_def place_stone_at_def
      place_stone_eval GameState_def get_def is_over_def)

end
